theory Spec2Isabelle
  imports Complex_Main
begin

section \<open>The integrate-and-fire notebook cell\<close>

text \<open>
  The code embedded here is the cell "I&F CODE (version 2)" of
  \<^verbatim>\<open>beta versions/Integrate and Fire Model/LIF.ipynb\<close>:
  \<^verbatim>\<open>
  I=1                     #Set the parameter I.
  C=1                     #Set the parameter C.
  Vth = 1;                #Define the voltage threshold.
  Vreset = 0;             #Define the reset voltage.
  dt=0.01                 #Set the timestep.
  V = np.zeros([1000,1])  #Initialize V.
  V[0]=0.2;               #Set the initial condition.

  for k in range(1,999):            #March forward in time,
      V[k+1] = V[k] + dt*(I/C)      #Update the voltage,
      if V[k+1] > Vth:              #... and check if the voltage exceeds the threshold.
          V[k+1] = Vreset
  \<close>
  The values the cell binds before the loop are the fields of a configuration. The array
  has \<open>N\<close> rows (1000 in the notebook) and the loop runs over \<open>range(1, N - 1)\<close>
  (\<open>range(1,999)\<close> in the notebook). The array has one column, so it is a list of
  numbers. Numbers are real numbers with exact arithmetic; the rounding of the notebook's
  double precision numbers is not part of the model. The infinities and the NaN of double
  precision are in the second model of the cell, \<open>simulate_d\<close> below.
\<close>

record config =
  I :: real
  C :: real
  Vth :: real
  Vreset :: real
  dt :: real
  N :: int
  V0 :: real

text \<open>The exceptions that the statements of the cell can raise.\<close>

datatype error = ValueError | IndexError | ZeroDivisionError

text \<open>\<^verbatim>\<open>np.zeros([n,1])\<close>: a negative dimension raises ValueError.\<close>

definition zeros :: "int \<Rightarrow> error + real list" where
  "zeros n = (if n < 0 then Inl ValueError else Inr (replicate (nat n) 0))"

text \<open>\<^verbatim>\<open>V[i]\<close> and \<^verbatim>\<open>V[i] = v\<close> for an index \<open>i \<ge> 0\<close>: out of range raises IndexError.\<close>

definition getitem :: "real list \<Rightarrow> nat \<Rightarrow> error + real" where
  "getitem V i = (if i < length V then Inr (V ! i) else Inl IndexError)"

definition setitem :: "real list \<Rightarrow> nat \<Rightarrow> real \<Rightarrow> error + real list" where
  "setitem V i v = (if i < length V then Inr (V[i := v]) else Inl IndexError)"

text \<open>\<^verbatim>\<open>a/b\<close> on Python numbers: a zero divisor raises ZeroDivisionError.\<close>

definition truediv :: "real \<Rightarrow> real \<Rightarrow> error + real" where
  "truediv a b = (if b = 0 then Inl ZeroDivisionError else Inr (a / b))"

text \<open>\<^verbatim>\<open>range(1, hi)\<close>: the indices \<open>1, ..., hi - 1\<close>, none when \<open>hi \<le> 1\<close>.\<close>

definition range1 :: "int \<Rightarrow> nat list" where
  "range1 hi = [1 ..< nat hi]"

text \<open>
  The loop body at index \<open>k\<close>, in Python's order of evaluation: read \<open>V[k]\<close>, divide,
  store \<open>V[k+1]\<close>, read it back, compare with \<open>Vth\<close> and store \<open>Vreset\<close> when it is
  greater.
\<close>

definition update :: "config \<Rightarrow> nat \<Rightarrow> real list \<Rightarrow> error + real list" where
  "update cfg k V =
     (case getitem V k of Inl e \<Rightarrow> Inl e | Inr v \<Rightarrow>
      (case truediv (I cfg) (C cfg) of Inl e \<Rightarrow> Inl e | Inr q \<Rightarrow>
       (case setitem V (k + 1) (v + dt cfg * q) of Inl e \<Rightarrow> Inl e | Inr V' \<Rightarrow>
        (case getitem V' (k + 1) of Inl e \<Rightarrow> Inl e | Inr w \<Rightarrow>
           if w > Vth cfg then setitem V' (k + 1) (Vreset cfg) else Inr V'))))"

text \<open>The for loop over a list of indices; the first exception ends it.\<close>

fun march :: "config \<Rightarrow> nat list \<Rightarrow> real list \<Rightarrow> error + real list" where
  "march cfg [] V = Inr V"
| "march cfg (k # ks) V =
     (case update cfg k V of Inl e \<Rightarrow> Inl e | Inr V' \<Rightarrow> march cfg ks V')"

text \<open>The cell: allocate, set the initial condition, march.\<close>

definition simulate :: "config \<Rightarrow> error + real list" where
  "simulate cfg =
     (case zeros (N cfg) of Inl e \<Rightarrow> Inl e | Inr Z \<Rightarrow>
      (case setitem Z 0 (V0 cfg) of Inl e \<Rightarrow> Inl e | Inr V \<Rightarrow>
         march cfg (range1 (N cfg - 1)) V))"

text \<open>
  The value that one pass of the loop body leaves at index \<open>k + 1\<close> when it read \<open>v\<close> at
  index \<open>k\<close>; \<open>C\<close> is not zero there.
\<close>

definition stored :: "config \<Rightarrow> real \<Rightarrow> real" where
  "stored cfg v =
     (if v + dt cfg * (I cfg / C cfg) > Vth cfg then Vreset cfg
      else v + dt cfg * (I cfg / C cfg))"

subsection \<open>The algorithm as the specification words it\<close>

text \<open>
  The specification's algorithm: \<open>trace[0] = V0\<close>, and for \<open>k\<close> from 0 to \<open>N - 2\<close>,
  \<open>candidate = trace[k] + dt * (I / C)\<close> and \<open>trace[k+1] = Vreset if candidate > Vth
  else candidate\<close>. It is written from the specification, to be compared with the cell.
\<close>

fun spec_fill :: "config \<Rightarrow> real \<Rightarrow> nat \<Rightarrow> real list" where
  "spec_fill cfg v 0 = []"
| "spec_fill cfg v (Suc n) =
     (let candidate = v + dt cfg * (I cfg / C cfg);
          w = (if candidate > Vth cfg then Vreset cfg else candidate)
      in w # spec_fill cfg w n)"

definition spec_trace :: "config \<Rightarrow> real list" where
  "spec_trace cfg = V0 cfg # spec_fill cfg (V0 cfg) (nat (N cfg) - 1)"

subsection \<open>The cell with the special values of double precision\<close>

text \<open>
  A double precision number is a finite number, an infinity or NaN. A finite result is
  kept as it is unless it is out of the range of double precision, where it becomes an
  infinity: rounding to nearest maps every real number from \<open>2^1024 - 2^970\<close> on to the
  infinity. A number of a configuration is read in the same way, as Python reads a
  literal. The rounding of finite results is not modelled here either.
\<close>

datatype double = Finite real | PosInf | NegInf | NaN

definition overflow :: "real \<Rightarrow> double" where
  "overflow x =
     (if x \<ge> 2 ^ 1024 - 2 ^ 970 then PosInf
      else if x \<le> - (2 ^ 1024 - 2 ^ 970) then NegInf
      else Finite x)"

text \<open>
  Addition, multiplication and division on doubles: NaN in gives NaN out,
  \<open>inf - inf\<close>, \<open>0 * inf\<close> and \<open>inf / inf\<close> are NaN, and no operation raises. The
  sign of a zero is not modelled. The division is the one behind Python's \<open>/\<close>, for a
  divisor that is not zero.
\<close>

fun dadd :: "double \<Rightarrow> double \<Rightarrow> double" where
  "dadd NaN y = NaN"
| "dadd x NaN = NaN"
| "dadd (Finite a) (Finite b) = overflow (a + b)"
| "dadd PosInf NegInf = NaN"
| "dadd NegInf PosInf = NaN"
| "dadd PosInf y = PosInf"
| "dadd NegInf y = NegInf"
| "dadd (Finite a) y = y"

fun dmul :: "double \<Rightarrow> double \<Rightarrow> double" where
  "dmul NaN y = NaN"
| "dmul x NaN = NaN"
| "dmul (Finite a) (Finite b) = overflow (a * b)"
| "dmul (Finite a) y = (if a = 0 then NaN else if (0 < a) = (y = PosInf) then PosInf else NegInf)"
| "dmul x (Finite b) = (if b = 0 then NaN else if (0 < b) = (x = PosInf) then PosInf else NegInf)"
| "dmul x y = (if x = y then PosInf else NegInf)"

fun ddiv :: "double \<Rightarrow> double \<Rightarrow> double" where
  "ddiv NaN y = NaN"
| "ddiv x NaN = NaN"
| "ddiv (Finite a) (Finite b) = overflow (a / b)"
| "ddiv (Finite a) y = Finite 0"
| "ddiv x (Finite b) = (if (0 < b) = (x = PosInf) then PosInf else NegInf)"
| "ddiv x y = NaN"

text \<open>
  The comparisons \<open>>\<close> and \<open>\<le>\<close>: both are false when an operand is NaN. \<open>dmax\<close> is
  the greater of two numbers.
\<close>

fun dgt :: "double \<Rightarrow> double \<Rightarrow> bool" where
  "dgt NaN y = False"
| "dgt x NaN = False"
| "dgt (Finite a) (Finite b) = (a > b)"
| "dgt PosInf y = (y \<noteq> PosInf)"
| "dgt x NegInf = (x \<noteq> NegInf)"
| "dgt x y = False"

fun dle :: "double \<Rightarrow> double \<Rightarrow> bool" where
  "dle NaN y = False"
| "dle x NaN = False"
| "dle (Finite a) (Finite b) = (a \<le> b)"
| "dle NegInf y = True"
| "dle x PosInf = True"
| "dle x y = False"

definition dmax :: "double \<Rightarrow> double \<Rightarrow> double" where
  "dmax a b = (if dle a b then b else a)"

text \<open>The array operations, the division and the allocation, on doubles.\<close>

definition getitem_d :: "double list \<Rightarrow> nat \<Rightarrow> error + double" where
  "getitem_d V i = (if i < length V then Inr (V ! i) else Inl IndexError)"

definition setitem_d :: "double list \<Rightarrow> nat \<Rightarrow> double \<Rightarrow> error + double list" where
  "setitem_d V i v = (if i < length V then Inr (V[i := v]) else Inl IndexError)"

definition truediv_d :: "double \<Rightarrow> double \<Rightarrow> error + double" where
  "truediv_d a b = (if b = Finite 0 then Inl ZeroDivisionError else Inr (ddiv a b))"

definition zeros_d :: "int \<Rightarrow> error + double list" where
  "zeros_d n = (if n < 0 then Inl ValueError else Inr (replicate (nat n) (Finite 0)))"

text \<open>The loop body, the loop and the cell, statement by statement as above.\<close>

definition update_d :: "config \<Rightarrow> nat \<Rightarrow> double list \<Rightarrow> error + double list" where
  "update_d cfg k V =
     (case getitem_d V k of Inl e \<Rightarrow> Inl e | Inr v \<Rightarrow>
      (case truediv_d (overflow (I cfg)) (overflow (C cfg)) of Inl e \<Rightarrow> Inl e | Inr q \<Rightarrow>
       (case setitem_d V (k + 1) (dadd v (dmul (overflow (dt cfg)) q)) of Inl e \<Rightarrow> Inl e | Inr V' \<Rightarrow>
        (case getitem_d V' (k + 1) of Inl e \<Rightarrow> Inl e | Inr w \<Rightarrow>
           if dgt w (overflow (Vth cfg)) then setitem_d V' (k + 1) (overflow (Vreset cfg))
           else Inr V'))))"

fun march_d :: "config \<Rightarrow> nat list \<Rightarrow> double list \<Rightarrow> error + double list" where
  "march_d cfg [] V = Inr V"
| "march_d cfg (k # ks) V =
     (case update_d cfg k V of Inl e \<Rightarrow> Inl e | Inr V' \<Rightarrow> march_d cfg ks V')"

definition simulate_d :: "config \<Rightarrow> error + double list" where
  "simulate_d cfg =
     (case zeros_d (N cfg) of Inl e \<Rightarrow> Inl e | Inr Z \<Rightarrow>
      (case setitem_d Z 0 (overflow (V0 cfg)) of Inl e \<Rightarrow> Inl e | Inr V \<Rightarrow>
         march_d cfg (range1 (N cfg - 1)) V))"

text \<open>The value that one pass of the loop body leaves at index \<open>k + 1\<close>, on doubles.\<close>

definition stored_d :: "config \<Rightarrow> double \<Rightarrow> double" where
  "stored_d cfg v =
     (let w = dadd v (dmul (overflow (dt cfg)) (ddiv (overflow (I cfg)) (overflow (C cfg))))
      in if dgt w (overflow (Vth cfg)) then overflow (Vreset cfg) else w)"

text \<open>The real numbers that are read as themselves.\<close>

definition in_range :: "real \<Rightarrow> bool" where
  "in_range x \<longleftrightarrow> \<bar>x\<bar> < 2 ^ 1024 - 2 ^ 970"

subsection \<open>Configurations used as concrete inputs\<close>

text \<open>The notebook's own values.\<close>

definition notebook :: config where
  "notebook = \<lparr>I = 1, C = 1, Vth = 1, Vreset = 0, dt = 1/100, N = 1000, V0 = 1/5\<rparr>"

text \<open>
  The other inputs have three or four rows and values that double precision numbers
  represent exactly, so that exact arithmetic and the notebook's arithmetic agree on them.
\<close>

definition small :: config where
  "small = \<lparr>I = 1, C = 1, Vth = 1, Vreset = 0, dt = 1/2, N = 3, V0 = 1/4\<rparr>"

text \<open>A threshold that the run does not reach.\<close>

definition below :: config where
  "below = \<lparr>I = 1, C = 1, Vth = 100, Vreset = 0, dt = 1/2, N = 3, V0 = 1/4\<rparr>"

text \<open>No current, and a threshold below the voltage.\<close>

definition held :: config where
  "held = \<lparr>I = 0, C = 1, Vth = - 1, Vreset = - 2, dt = 1, N = 3, V0 = 0\<rparr>"

text \<open>No current, and a threshold above the voltage.\<close>

definition idle :: config where
  "idle = \<lparr>I = 0, C = 1, Vth = 1, Vreset = 0, dt = 1/2, N = 4, V0 = 1/4\<rparr>"

text \<open>A run that meets the threshold exactly at row 2 and passes it at row 3.\<close>

definition boundary :: config where
  "boundary = \<lparr>I = 1, C = 1, Vth = 1/2, Vreset = - 1, dt = 1/2, N = 4, V0 = 1/4\<rparr>"

text \<open>A negative and a zero capacitance.\<close>

definition negative_C :: config where
  "negative_C = \<lparr>I = 1, C = - 1, Vth = 1, Vreset = 0, dt = 1/2, N = 3, V0 = 1/4\<rparr>"

definition zero_C :: config where
  "zero_C = \<lparr>I = 1, C = 0, Vth = 1, Vreset = 0, dt = 1/2, N = 3, V0 = 1/4\<rparr>"

text \<open>
  A quotient \<open>I / C = 2^1024\<close> beyond the range of double precision, and a time step of
  zero; \<open>2^1023\<close> and \<open>1/2\<close> are doubles.
\<close>

definition overflowing :: config where
  "overflowing = \<lparr>I = 2 ^ 1023, C = 1/2, Vth = 1, Vreset = 0, dt = 0, N = 3, V0 = 1/4\<rparr>"

section \<open>The loop body and the loop\<close>

lemma update_eq:
  "update cfg k V =
     (if \<not> k < length V then Inl IndexError
      else if C cfg = 0 then Inl ZeroDivisionError
      else if \<not> Suc k < length V then Inl IndexError
      else Inr (V[Suc k := stored cfg (V ! k)]))"
  by (simp add: update_def getitem_def setitem_def truediv_def stored_def)

lemma march_snoc:
  "march cfg (ks @ [k]) V =
     (case march cfg ks V of Inl e \<Rightarrow> Inl e | Inr V' \<Rightarrow> update cfg k V')"
  by (induction ks arbitrary: V) (simp_all split: sum.splits)

text \<open>
  With a capacitance other than zero, the loop over \<open>1, ..., n - 1\<close> returns: it keeps the
  length, writes the indices 2 to \<open>n\<close> only, and leaves each written element equal to
  what the body computes from its left neighbour.
\<close>

lemma march_upt:
  assumes "C cfg \<noteq> 0" and "n < length V"
  shows "\<exists>V'. march cfg [1 ..< n] V = Inr V' \<and> length V' = length V
            \<and> (\<forall>i. i \<le> 1 \<or> n < i \<longrightarrow> V' ! i = V ! i)
            \<and> (\<forall>k. 1 \<le> k \<and> k < n \<longrightarrow> V' ! Suc k = stored cfg (V' ! k))"
  using assms(2)
proof (induction n)
  case 0
  then show ?case by simp
next
  case (Suc n)
  show ?case
  proof (cases "n = 0")
    case True
    then show ?thesis by simp
  next
    case False
    from Suc obtain V1 where m: "march cfg [1 ..< n] V = Inr V1"
      and len: "length V1 = length V"
      and frame: "\<forall>i. i \<le> 1 \<or> n < i \<longrightarrow> V1 ! i = V ! i"
      and rec: "\<forall>k. 1 \<le> k \<and> k < n \<longrightarrow> V1 ! Suc k = stored cfg (V1 ! k)"
      by auto
    from False have upt: "[1 ..< Suc n] = [1 ..< n] @ [n]" by simp
    let ?W = "V1[Suc n := stored cfg (V1 ! n)]"
    have "march cfg ([1 ..< n] @ [n]) V = Inr ?W"
      unfolding march_snoc m using len Suc.prems assms(1) by (simp add: update_eq)
    then have run: "march cfg [1 ..< Suc n] V = Inr ?W"
      by (simp only: upt)
    have "length ?W = length V" using len by simp
    moreover have "\<forall>i. i \<le> 1 \<or> Suc n < i \<longrightarrow> ?W ! i = V ! i"
      using frame False by auto
    moreover have "\<forall>k. 1 \<le> k \<and> k < Suc n \<longrightarrow> ?W ! Suc k = stored cfg (?W ! k)"
    proof (intro allI impI)
      fix k assume k: "1 \<le> k \<and> k < Suc n"
      show "?W ! Suc k = stored cfg (?W ! k)"
      proof (cases "k = n")
        case True
        then show ?thesis using len Suc.prems by simp
      next
        case False
        with k have "k < n" by simp
        then show ?thesis using rec k by simp
      qed
    qed
    ultimately show ?thesis using run by blast
  qed
qed

text \<open>With a zero capacitance the first pass of the loop raises.\<close>

lemma march_zero_capacitance:
  assumes "C cfg = 0" and "2 \<le> n" and "1 < length V"
  shows "march cfg [1 ..< n] V = Inl ZeroDivisionError"
proof -
  from assms(2) have "[1 ..< n] = 1 # [2 ..< n]"
    by (simp add: upt_conv_Cons numeral_2_eq_2)
  then have "march cfg [1 ..< n] V = march cfg (1 # [2 ..< n]) V"
    by (simp only:)
  also have "\<dots> = Inl ZeroDivisionError"
    using assms(1,3) by (simp add: update_eq)
  finally show ?thesis .
qed

section \<open>The whole cell\<close>

text \<open>The three ways in which the cell raises.\<close>

lemma simulate_negative: "N cfg < 0 \<Longrightarrow> simulate cfg = Inl ValueError"
  by (simp add: simulate_def zeros_def)

lemma simulate_empty: "N cfg = 0 \<Longrightarrow> simulate cfg = Inl IndexError"
  by (simp add: simulate_def zeros_def setitem_def)

lemma simulate_zero_capacitance:
  assumes "C cfg = 0" and "3 \<le> N cfg"
  shows "simulate cfg = Inl ZeroDivisionError"
proof -
  have "2 \<le> nat (N cfg - 1)" and "1 < length ((replicate (nat (N cfg)) (0::real))[0 := V0 cfg])"
    using assms(2) by simp_all
  then have "march cfg [1 ..< nat (N cfg - 1)] ((replicate (nat (N cfg)) 0)[0 := V0 cfg])
      = Inl ZeroDivisionError"
    by (rule march_zero_capacitance[OF assms(1)])
  then show ?thesis
    using assms(2) by (simp add: simulate_def zeros_def setitem_def range1_def)
qed

text \<open>
  In every other case the cell returns an array of \<open>N\<close> rows. Row 0 holds \<open>V0\<close>, row 1
  holds the zero that \<open>zeros\<close> put there, and each row from 2 on holds what the loop body
  computed from the row before it.
\<close>

lemma simulate_ok:
  assumes "1 \<le> N cfg" and "C cfg \<noteq> 0 \<or> N cfg \<le> 2"
  shows "\<exists>V. simulate cfg = Inr V \<and> length V = nat (N cfg) \<and> V ! 0 = V0 cfg
           \<and> (2 \<le> N cfg \<longrightarrow> V ! 1 = 0)
           \<and> (\<forall>k. 1 \<le> k \<and> Suc k < nat (N cfg) \<longrightarrow> V ! Suc k = stored cfg (V ! k))"
proof -
  let ?Z = "(replicate (nat (N cfg)) (0::real))[0 := V0 cfg]"
  have sim: "simulate cfg = march cfg [1 ..< nat (N cfg - 1)] ?Z"
    using assms(1) by (simp add: simulate_def zeros_def setitem_def range1_def)
  have z0: "?Z ! 0 = V0 cfg" and z1: "2 \<le> N cfg \<longrightarrow> ?Z ! 1 = 0" and zl: "length ?Z = nat (N cfg)"
    using assms(1) by simp_all
  show ?thesis
  proof (cases "C cfg = 0")
    case True
    with assms(2) have "nat (N cfg - 1) \<le> 1" by simp
    then have "[1 ..< nat (N cfg - 1)] = []" by simp
    then have "march cfg [1 ..< nat (N cfg - 1)] ?Z = march cfg [] ?Z" by (simp only:)
    then have "simulate cfg = Inr ?Z" using sim by simp
    moreover have "\<not> (1 \<le> k \<and> Suc k < nat (N cfg))" for k
      using True assms(2) by auto
    ultimately show ?thesis using z0 z1 zl by blast
  next
    case False
    have "nat (N cfg - 1) < length ?Z" using assms(1) by simp
    from march_upt[OF False this] obtain V where
      m: "march cfg [1 ..< nat (N cfg - 1)] ?Z = Inr V" and len: "length V = length ?Z"
      and frame: "\<forall>i. i \<le> 1 \<or> nat (N cfg - 1) < i \<longrightarrow> V ! i = ?Z ! i"
      and rec: "\<forall>k. 1 \<le> k \<and> k < nat (N cfg - 1) \<longrightarrow> V ! Suc k = stored cfg (V ! k)"
      by blast
    have "V ! 0 = V0 cfg" using frame z0 by simp
    moreover have "2 \<le> N cfg \<longrightarrow> V ! 1 = 0" using frame z1 by simp
    moreover have "\<forall>k. 1 \<le> k \<and> Suc k < nat (N cfg) \<longrightarrow> V ! Suc k = stored cfg (V ! k)"
      using rec by (auto simp: nat_diff_distrib)
    ultimately show ?thesis using sim m len zl by auto
  qed
qed

lemma simulate_Inr_D:
  assumes "simulate cfg = Inr V"
  shows "1 \<le> N cfg \<and> (C cfg \<noteq> 0 \<or> N cfg \<le> 2)"
proof -
  have "\<not> N cfg < 0" using assms simulate_negative[of cfg] by auto
  moreover have "N cfg \<noteq> 0" using assms simulate_empty[of cfg] by auto
  moreover have "\<not> (C cfg = 0 \<and> 3 \<le> N cfg)" using assms simulate_zero_capacitance[of cfg] by auto
  ultimately show ?thesis by auto
qed

lemma simulate_props:
  assumes "simulate cfg = Inr V"
  shows "length V = nat (N cfg)" and "V ! 0 = V0 cfg" and "2 \<le> N cfg \<Longrightarrow> V ! 1 = 0"
    and "1 \<le> k \<Longrightarrow> Suc k < nat (N cfg) \<Longrightarrow> V ! Suc k = stored cfg (V ! k)"
  using simulate_ok[of cfg] simulate_Inr_D[OF assms] assms by auto

text \<open>
  Below the threshold the rows from 1 on grow linearly from zero: row \<open>k\<close> holds
  \<open>(k - 1) * dt * (I / C)\<close>.
\<close>

lemma simulate_linear:
  assumes "simulate cfg = Inr V" and "1 \<le> k" and "int k < N cfg"
    and "\<forall>j. 1 \<le> j \<and> j < k \<longrightarrow> real j * (dt cfg * (I cfg / C cfg)) \<le> Vth cfg"
  shows "V ! k = real (k - 1) * (dt cfg * (I cfg / C cfg))"
proof -
  define d where "d = dt cfg * (I cfg / C cfg)"
  have st: "stored cfg v = (if v + d > Vth cfg then Vreset cfg else v + d)" for v
    by (simp only: stored_def d_def)
  have "1 \<le> k \<Longrightarrow> int k < N cfg \<Longrightarrow> (\<forall>j. 1 \<le> j \<and> j < k \<longrightarrow> real j * d \<le> Vth cfg)
      \<Longrightarrow> V ! k = real (k - 1) * d"
  proof (induction k)
    case 0
    then show ?case by simp
  next
    case (Suc k)
    show ?case
    proof (cases "k = 0")
      case True
      then show ?thesis using simulate_props(3)[OF assms(1)] Suc.prems by simp
    next
      case False
      then have k: "1 \<le> k" "int k < N cfg" using Suc.prems by simp_all
      have vk: "V ! k = real (k - 1) * d"
        using Suc.IH[OF k] Suc.prems(3) by simp
      have le: "real k * d \<le> Vth cfg"
        using Suc.prems(3) k by simp
      have "real (k - 1) * d + d = real k * d"
        using k(1) by (simp add: algebra_simps)
      then have "stored cfg (V ! k) = real k * d"
        using le by (simp only: st vk) simp
      moreover have "V ! Suc k = stored cfg (V ! k)"
        using simulate_props(4)[OF assms(1) k(1)] Suc.prems(2) by simp
      ultimately show ?thesis by simp
    qed
  qed
  then show ?thesis using assms(2-) by (simp only: d_def)
qed

section \<open>The cell on doubles\<close>

text \<open>The threshold of overflow is far from the small numbers.\<close>

lemma threshold_large: "(2 ^ 54 - 1 :: real) \<le> 2 ^ 1024 - 2 ^ 970"
proof -
  have "(2 ^ 1024 :: real) = 2 ^ 970 * 2 ^ 54" by (simp add: power_add [symmetric])
  then have "(2 ^ 1024 - 2 ^ 970 :: real) = 2 ^ 970 * (2 ^ 54 - 1)" by (simp add: algebra_simps)
  moreover have "(1::real) \<le> 2 ^ 970" by simp
  moreover have "(0::real) \<le> 2 ^ 54 - 1" by simp
  ultimately show ?thesis using mult_right_mono[of 1 "2 ^ 970 :: real" "2 ^ 54 - 1"] by simp
qed

lemma overflow_small: "\<bar>x\<bar> \<le> 1000 \<Longrightarrow> overflow x = Finite x"
  using threshold_large by (auto simp: overflow_def)

lemma overflow_not_NaN: "overflow x \<noteq> NaN"
  by (simp add: overflow_def)

lemma overflow_zero_iff: "overflow x = Finite 0 \<longleftrightarrow> x = 0"
  using overflow_small[of 0] by (auto simp: overflow_def)

text \<open>The loop body on doubles, with the same three exceptions.\<close>

lemma update_d_eq:
  "update_d cfg k V =
     (if \<not> k < length V then Inl IndexError
      else if C cfg = 0 then Inl ZeroDivisionError
      else if \<not> Suc k < length V then Inl IndexError
      else Inr (V[Suc k := stored_d cfg (V ! k)]))"
  by (simp add: update_d_def getitem_d_def setitem_d_def truediv_d_def stored_d_def
      overflow_zero_iff Let_def)

text \<open>Away from NaN, not greater is less or equal.\<close>

lemma not_dgt_dle: "x \<noteq> NaN \<Longrightarrow> y \<noteq> NaN \<Longrightarrow> \<not> dgt x y \<Longrightarrow> dle x y"
  by (cases x; cases y) auto

lemma dle_dmax_left: "x \<noteq> NaN \<Longrightarrow> t \<noteq> NaN \<Longrightarrow> r \<noteq> NaN \<Longrightarrow> dle x t \<Longrightarrow> dle x (dmax t r)"
  by (cases x; cases t; cases r) (auto simp: dmax_def)

lemma dle_dmax_right: "t \<noteq> NaN \<Longrightarrow> r \<noteq> NaN \<Longrightarrow> dle r (dmax t r)"
  by (cases t; cases r) (auto simp: dmax_def)

text \<open>
  What a pass stores is a candidate that the comparison did not find greater than
  \<open>Vth\<close>, or \<open>Vreset\<close>: it is NaN or bounded.
\<close>

lemma stored_d_bounded:
  "stored_d cfg v = NaN
     \<or> dle (stored_d cfg v) (dmax (overflow (Vth cfg)) (overflow (Vreset cfg)))"
proof -
  define w where "w = dadd v (dmul (overflow (dt cfg)) (ddiv (overflow (I cfg)) (overflow (C cfg))))"
  have st: "stored_d cfg v = (if dgt w (overflow (Vth cfg)) then overflow (Vreset cfg) else w)"
    by (simp add: stored_d_def w_def)
  show ?thesis
  proof (cases "dgt w (overflow (Vth cfg))")
    case True
    then show ?thesis
      using dle_dmax_right[of "overflow (Vth cfg)" "overflow (Vreset cfg)"]
      by (simp add: st overflow_not_NaN)
  next
    case False
    show ?thesis
    proof (cases "w = NaN")
      case True
      with False show ?thesis by (simp add: st)
    next
      case nn: False
      from not_dgt_dle[OF nn overflow_not_NaN False]
      have "dle w (dmax (overflow (Vth cfg)) (overflow (Vreset cfg)))"
        by (rule dle_dmax_left[OF nn overflow_not_NaN overflow_not_NaN])
      with False show ?thesis by (simp add: st)
    qed
  qed
qed

text \<open>
  The loop over any indices \<open>ks\<close> keeps the length, leaves at each index \<open>k + 1\<close> a value
  that a pass stored, and leaves the other indices as they were.
\<close>

lemma march_d_written:
  assumes "march_d cfg ks V = Inr V'"
  shows "length V' = length V
       \<and> (\<forall>i. i \<in> Suc ` set ks \<longrightarrow> (\<exists>v. V' ! i = stored_d cfg v))
       \<and> (\<forall>i. i \<notin> Suc ` set ks \<longrightarrow> V' ! i = V ! i)"
  using assms
proof (induction ks arbitrary: V)
  case Nil
  then show ?case by simp
next
  case (Cons k ks)
  from Cons.prems obtain V1 where u: "update_d cfg k V = Inr V1" and m: "march_d cfg ks V1 = Inr V'"
    by (auto split: sum.splits)
  from u have k: "Suc k < length V" and V1: "V1 = V[Suc k := stored_d cfg (V ! k)]"
    by (auto simp: update_d_eq split: if_splits)
  from Cons.IH[OF m] have len: "length V' = length V1"
    and wr: "\<forall>i. i \<in> Suc ` set ks \<longrightarrow> (\<exists>v. V' ! i = stored_d cfg v)"
    and fr: "\<forall>i. i \<notin> Suc ` set ks \<longrightarrow> V' ! i = V1 ! i"
    by auto
  have "length V' = length V" using len V1 by simp
  moreover have "\<exists>v. V' ! i = stored_d cfg v" if "i \<in> Suc ` set (k # ks)" for i
  proof (cases "i \<in> Suc ` set ks")
    case True
    then show ?thesis using wr by blast
  next
    case False
    with that have "i = Suc k" by auto
    then have "V' ! i = stored_d cfg (V ! k)" using fr False V1 k by simp
    then show ?thesis by blast
  qed
  moreover have "V' ! i = V ! i" if "i \<notin> Suc ` set (k # ks)" for i
  proof -
    from that have "i \<notin> Suc ` set ks" and "i \<noteq> Suc k" by auto
    then show ?thesis using fr V1 by simp
  qed
  ultimately show ?case by blast
qed

text \<open>With three rows the loop makes the single pass \<open>k = 1\<close>.\<close>

lemma simulate_d_three:
  assumes "N cfg = 3" and "C cfg \<noteq> 0"
  shows "simulate_d cfg = Inr [overflow (V0 cfg), Finite 0, stored_d cfg (Finite 0)]"
proof -
  have "range1 (N cfg - 1) = [1]"
    using assms(1) by (simp add: range1_def numeral_2_eq_2 upt_conv_Cons)
  moreover have "replicate (nat (N cfg)) (Finite 0) = [Finite 0, Finite 0, Finite 0]"
    using assms(1) by (simp add: numeral_3_eq_3)
  ultimately show ?thesis
    using assms by (simp add: simulate_d_def zeros_d_def setitem_d_def update_d_eq)
qed

text \<open>
  Where the numbers of the configuration and the intermediate results are in range, one
  pass on doubles stores what the pass on real numbers stores.
\<close>

lemma overflow_in_range: "in_range x \<Longrightarrow> overflow x = Finite x"
  by (auto simp: overflow_def in_range_def)

lemma stored_d_finite:
  assumes "in_range (I cfg)" and "in_range (C cfg)" and "in_range (dt cfg)"
    and "in_range (Vth cfg)" and "in_range (Vreset cfg)"
    and "in_range (I cfg / C cfg)" and "in_range (dt cfg * (I cfg / C cfg))"
    and "in_range (v + dt cfg * (I cfg / C cfg))"
  shows "stored_d cfg (Finite v) = Finite (stored cfg v)"
  using assms by (simp add: stored_d_def stored_def overflow_in_range Let_def)

section \<open>The claims\<close>

text \<open>
  Claim C1: for every configuration with \<open>C > 0\<close> and \<open>N \<ge> 1\<close> the cell produces the
  trace of the specification's algorithm, which starts at \<open>trace[0] = V0\<close> and computes
  \<open>trace[1]\<close> from it. The cell does not: its loop starts at \<open>k = 1\<close>, so row 1 keeps
  its zero and row 2 is computed from that zero. On \<open>small\<close> the cell returns
  \<open>[1/4, 0, 1/2]\<close> and the specification's algorithm \<open>[1/4, 3/4, 0]\<close>.
\<close>

theorem cell_differs_from_spec_algorithm: "simulate small = Inr [1/4, 0, 1/2] \<and> spec_trace small = [1/4, 3/4, 0]"
  by code_simp

text \<open>
  Claim C2: on the notebook's values the trace has \<open>trace[0] = 0.2\<close>, \<open>trace[80] = 0\<close>
  and \<open>trace[79]\<close> near \<open>0.99\<close>. The cell leaves \<open>0.2\<close> in row 0, but its rows
  from 1 on grow from zero: row 79 holds \<open>0.78\<close> and row 80 holds \<open>0.79\<close>, and no
  reset has happened by then.
\<close>

theorem notebook_run_values:
  "\<exists>V. simulate notebook = Inr V \<and> V ! 0 = 1/5 \<and> V ! 79 = 39/50 \<and> V ! 80 = 79/100"
proof -
  obtain V where sim: "simulate notebook = Inr V" and v0: "V ! 0 = V0 notebook"
    using simulate_ok[of notebook] by (auto simp: notebook_def)
  have lin: "V ! k = real (k - 1) * (1/100)" if "1 \<le> k" "k \<le> 80" for k
  proof -
    have "\<forall>j. 1 \<le> j \<and> j < k \<longrightarrow> real j * (dt notebook * (I notebook / C notebook)) \<le> Vth notebook"
      using that by (auto simp: notebook_def)
    from simulate_linear[OF sim that(1) _ this] that(2) show ?thesis
      by (simp add: notebook_def)
  qed
  have "V ! 79 = 39/50" using lin[of 79] by simp
  moreover have "V ! 80 = 79/100" using lin[of 80] by simp
  moreover have "V ! 0 = 1/5" using v0 by (simp add: notebook_def)
  ultimately show ?thesis using sim by blast
qed

text \<open>
  Claim C3, as stated: with \<open>I = 0\<close> every element of the trace equals \<open>V0\<close>. It
  fails on \<open>held\<close>, where the threshold lies below the voltage: the comparison with
  \<open>Vth\<close> replaces the held value by \<open>Vreset\<close>, in the cell and in the specification's
  algorithm alike.
\<close>

theorem constant_trace_counterexample:
  "I held = 0 \<and> 0 < C held \<and> 1 \<le> N held \<and> simulate held = Inr [0, 0, - 2]
     \<and> [0, 0, - 2] ! 2 \<noteq> V0 held \<and> spec_trace held = [0, - 2, - 2]"
  by code_simp

text \<open>
  Claim C3, amended: with \<open>I = 0\<close>, \<open>C \<noteq> 0\<close> and \<open>N \<ge> 1\<close> the cell returns a
  trace with \<open>trace[0] = V0\<close>, and the loop holds the voltage: when \<open>trace[1]\<close> does
  not exceed \<open>Vth\<close>, every element from index 1 to \<open>N - 1\<close> equals \<open>trace[1]\<close>.
\<close>

theorem zero_current_holds_voltage:
  assumes "I cfg = 0" and "C cfg \<noteq> 0" and "1 \<le> N cfg"
  shows "\<exists>V. simulate cfg = Inr V \<and> V ! 0 = V0 cfg
           \<and> (2 \<le> N cfg \<and> V ! 1 \<le> Vth cfg \<longrightarrow> (\<forall>k. 1 \<le> k \<and> int k < N cfg \<longrightarrow> V ! k = V ! 1))"
proof -
  obtain V where sim: "simulate cfg = Inr V" and v0: "V ! 0 = V0 cfg"
    using simulate_ok[of cfg] assms by auto
  have st: "stored cfg v = (if v > Vth cfg then Vreset cfg else v)" for v
    using assms(1) by (simp add: stored_def)
  have "V ! k = V ! 1" if le: "V ! 1 \<le> Vth cfg" and k: "1 \<le> k" "int k < N cfg" for k
    using k
  proof (induction k)
    case 0
    then show ?case by simp
  next
    case (Suc k)
    show ?case
    proof (cases "k = 0")
      case True
      then show ?thesis by simp
    next
      case False
      then have k1: "1 \<le> k" and kN: "int k < N cfg" using Suc.prems by simp_all
      have "V ! Suc k = stored cfg (V ! k)"
        using simulate_props(4)[OF sim k1] Suc.prems(2) by simp
      also have "\<dots> = V ! 1"
        using Suc.IH[OF k1 kN] le by (simp add: st)
      finally show ?thesis .
    qed
  qed
  then show ?thesis using sim v0 by blast
qed

text \<open>
  On \<open>idle\<close> the trace is \<open>[1/4, 0, 0, 0]\<close>.
\<close>

theorem zero_current_holds_voltage_witness:
  "I idle = 0 \<and> C idle \<noteq> 0 \<and> 1 \<le> N idle
     \<and> (\<exists>V. simulate idle = Inr V \<and> V ! 0 = 1/4 \<and> V ! 1 \<le> Vth idle \<and> V ! 3 = V ! 1)"
proof -
  have e: "simulate idle = Inr [1/4, 0, 0, 0]" by code_simp
  have h: "I idle = 0" "C idle \<noteq> 0" "1 \<le> N idle" by (simp_all add: idle_def)
  from zero_current_holds_voltage[OF h] e show ?thesis using h by (simp add: idle_def)
qed

text \<open>
  Claim C4: with \<open>I > 0\<close>, \<open>C > 0\<close> and no candidate above \<open>Vth\<close>,
  \<open>trace[k] = V0 + k * dt * (I / C)\<close> for every index. On \<open>below\<close>, whose threshold
  is out of reach, the cell returns \<open>[1/4, 0, 1/2]\<close>, while the formula gives \<open>3/4\<close>
  at index 1: the rows from 1 on grow linearly from zero, not from \<open>V0\<close>
  (lemma \<open>simulate_linear\<close>).
\<close>

theorem linear_growth_fails_at_index_one: "0 < I below \<and> 0 < C below \<and> simulate below = Inr [1/4, 0, 1/2]
    \<and> V0 below + 1 * dt below * (I below / C below) = 3/4"
  by code_simp

text \<open>
  Claim C5: for every valid configuration (\<open>C > 0\<close>, \<open>N \<ge> 1\<close>) the cell returns a
  trace of length exactly \<open>N\<close> whose element at index 0 is \<open>V0\<close>.
\<close>

theorem trace_length_and_initial_value:
  assumes "0 < C cfg" and "1 \<le> N cfg"
  shows "\<exists>V. simulate cfg = Inr V \<and> int (length V) = N cfg \<and> V ! 0 = V0 cfg"
  using simulate_ok[of cfg] assms by auto

text \<open>
  On \<open>small\<close> the trace has three rows and starts with \<open>1/4\<close>.
\<close>

theorem trace_length_and_initial_value_witness:
  "0 < C small \<and> 1 \<le> N small
     \<and> (\<exists>V. simulate small = Inr V \<and> int (length V) = 3 \<and> V ! 0 = 1/4)"
proof -
  have h: "0 < C small" "1 \<le> N small" by (simp_all add: small_def)
  from trace_length_and_initial_value[OF h] show ?thesis using h by (simp add: small_def)
qed

text \<open>
  Claim C6: the reset comparison is strict. At every pass \<open>k\<close> of the loop (the
  cell's passes are \<open>k = 1, ..., N - 2\<close>), a candidate \<open>trace[k] + dt * (I / C)\<close>
  equal to \<open>Vth\<close> is stored unchanged at index \<open>k + 1\<close>, and a candidate greater than
  \<open>Vth\<close> is replaced by \<open>Vreset\<close> there.
\<close>

theorem reset_comparison_is_strict:
  assumes "simulate cfg = Inr V" and "1 \<le> k" and "int k \<le> N cfg - 2"
  shows "(V ! k + dt cfg * (I cfg / C cfg) = Vth cfg \<longrightarrow> V ! (k + 1) = Vth cfg)
       \<and> (V ! k + dt cfg * (I cfg / C cfg) > Vth cfg \<longrightarrow> V ! (k + 1) = Vreset cfg)"
proof -
  have "Suc k < nat (N cfg)" using assms(3) by simp
  from simulate_props(4)[OF assms(1,2) this] show ?thesis
    by (simp add: stored_def)
qed

text \<open>
  On \<open>boundary\<close> the pass \<open>k = 1\<close> meets the threshold exactly and stores it, and
  the pass \<open>k = 2\<close> exceeds it and stores \<open>Vreset\<close>.
\<close>

theorem reset_comparison_is_strict_witness:
  "simulate boundary = Inr [1/4, 0, 1/2, - 1] \<and> [1/4, 0, 1/2, - 1] ! 2 = Vth boundary
     \<and> [1/4, 0, 1/2, - 1] ! 3 = Vreset boundary"
proof -
  have e: "simulate boundary = Inr [1/4, 0, 1/2, - 1]" by code_simp
  from reset_comparison_is_strict[OF e, of 1] reset_comparison_is_strict[OF e, of 2] e show ?thesis
    by (simp add: boundary_def numeral_3_eq_3 numeral_2_eq_2)
qed

text \<open>
  Claim C7, as stated: the cell raises if and only if \<open>C \<le> 0\<close> or \<open>N \<le> 0\<close>. It
  fails on \<open>negative_C\<close>: the cell checks nothing, and a negative capacitance is
  simulated like any other.
\<close>

theorem negative_capacitance_accepted: "C negative_C \<le> 0 \<and> simulate negative_C = Inr [1/4, 0, - 1/2]"
  by code_simp

text \<open>
  Claim C7, amended: the cell raises exactly in three cases. A negative \<open>N\<close> raises
  ValueError when the array is allocated; \<open>N = 0\<close> raises IndexError when \<open>V[0]\<close> is
  set; \<open>C = 0\<close> with \<open>N \<ge> 3\<close> raises ZeroDivisionError in the first pass of the
  loop. Every other configuration returns a trace, whatever the signs of \<open>C\<close>, \<open>I\<close>
  and \<open>Vreset\<close> and whether or not \<open>Vreset\<close> exceeds \<open>Vth\<close>; that includes
  \<open>C = 0\<close> with \<open>N \<le> 2\<close>, where the loop has no pass.
\<close>

theorem simulate_raises_iff:
  "(simulate cfg = Inl ValueError \<longleftrightarrow> N cfg < 0)
   \<and> (simulate cfg = Inl IndexError \<longleftrightarrow> N cfg = 0)
   \<and> (simulate cfg = Inl ZeroDivisionError \<longleftrightarrow> C cfg = 0 \<and> 3 \<le> N cfg)
   \<and> ((\<exists>V. simulate cfg = Inr V) \<longleftrightarrow> 1 \<le> N cfg \<and> (C cfg \<noteq> 0 \<or> N cfg \<le> 2))"
proof -
  consider "N cfg < 0" | "N cfg = 0" | "C cfg = 0 \<and> 3 \<le> N cfg"
    | "1 \<le> N cfg \<and> (C cfg \<noteq> 0 \<or> N cfg \<le> 2)"
    by linarith
  then show ?thesis
  proof cases
    case 1
    then show ?thesis using simulate_negative[of cfg] by simp
  next
    case 2
    then show ?thesis using simulate_empty[of cfg] by simp
  next
    case 3
    then show ?thesis using simulate_zero_capacitance[of cfg] by simp
  next
    case 4
    then obtain V where "simulate cfg = Inr V" using simulate_ok[of cfg] by blast
    then show ?thesis using 4 by auto
  qed
qed

text \<open>
  The five cases at concrete inputs.
\<close>

theorem simulate_raises_iff_witness:
  "simulate zero_C = Inl ZeroDivisionError \<and> (\<exists>V. simulate (zero_C\<lparr>N := 2\<rparr>) = Inr V)
    \<and> (\<exists>V. simulate negative_C = Inr V) \<and> simulate (zero_C\<lparr>N := 0\<rparr>) = Inl IndexError
    \<and> simulate (zero_C\<lparr>N := - 1\<rparr>) = Inl ValueError"
  using simulate_raises_iff[of zero_C] simulate_raises_iff[of "zero_C\<lparr>N := 2\<rparr>"] simulate_raises_iff[of negative_C]
    simulate_raises_iff[of "zero_C\<lparr>N := 0\<rparr>"] simulate_raises_iff[of "zero_C\<lparr>N := - 1\<rparr>"]
  by (simp add: zero_C_def negative_C_def)

text \<open>
  Claim C9: the loop writes the indices 2 to \<open>N - 1\<close> only, so that in every trace
  the cell returns with \<open>N \<ge> 2\<close>, index 1 holds the zero of the allocation, whatever
  \<open>V0\<close>, \<open>I\<close>, \<open>C\<close> and \<open>dt\<close> are. The cell returns a trace with \<open>N \<ge> 2\<close>
  exactly when \<open>C \<noteq> 0\<close> or \<open>N = 2\<close>.
\<close>

theorem index_one_never_assigned:
  assumes "2 \<le> N cfg" and "C cfg \<noteq> 0 \<or> N cfg = 2"
  shows "\<exists>V. simulate cfg = Inr V \<and> V ! 1 = 0"
  using simulate_ok[of cfg] assms by auto

text \<open>
  On \<open>small\<close> index 1 holds zero.
\<close>

theorem index_one_never_assigned_witness:
  "2 \<le> N small \<and> C small = 1 \<and> (\<exists>V. simulate small = Inr V \<and> V ! 1 = 0)"
proof -
  have h: "2 \<le> N small" "C small \<noteq> 0 \<or> N small = 2" by (simp_all add: small_def)
  from index_one_never_assigned[OF h] show ?thesis using h by (simp add: small_def)
qed

text \<open>
  Claim C10, as stated: every element that the loop body writes is at most
  \<open>max(Vth, Vreset)\<close>, for every configuration and every index \<open>k\<close> with
  \<open>2 \<le> k \<le> N - 1\<close>. It fails on \<open>overflowing\<close>: \<open>I / C\<close> overflows to infinity,
  \<open>dt * (I / C)\<close> is \<open>0 * inf\<close>, which is NaN, and \<open>NaN > Vth\<close> is false, so NaN stays
  at index 2, and NaN is not less than or equal to any number.
\<close>

theorem nan_escapes_bound:
  "simulate_d overflowing = Inr [Finite (1/4), Finite 0, NaN]
    \<and> \<not> dle NaN (dmax (overflow (Vth overflowing)) (overflow (Vreset overflowing)))"
proof -
  have big: "overflow (2 ^ 1023 / (1/2)) = PosInf"
  proof -
    have "(2 ^ 1023 / (1/2) :: real) = 2 ^ 1024" by simp
    moreover have "(2 ^ 1024 - 2 ^ 970 :: real) \<le> 2 ^ 1024" by simp
    ultimately show ?thesis by (simp only: overflow_def if_True)
  qed
  have inr: "overflow (2 ^ 1023) = Finite (2 ^ 1023)"
  proof -
    have "(2 ^ 970 :: real) < 2 ^ 1023" by (rule power_strict_increasing) simp_all
    moreover have "(2 ^ 1024 :: real) = 2 * 2 ^ 1023" by simp
    ultimately have "(2 ^ 1023 :: real) < 2 ^ 1024 - 2 ^ 970" by linarith
    moreover have "(0::real) < 2 ^ 1023" and "(0::real) \<le> 2 ^ 54 - 1" by simp_all
    then have "- (2 ^ 1024 - 2 ^ 970) < (2 ^ 1023 :: real)"
      using threshold_large by linarith
    ultimately show ?thesis by (simp only: overflow_def) simp
  qed
  have st: "stored_d overflowing (Finite 0) = NaN"
    using big inr by (simp add: stored_d_def overflowing_def overflow_small Let_def)
  have "simulate_d overflowing = Inr [Finite (1/4), Finite 0, NaN]"
    using simulate_d_three[of overflowing] st by (simp add: overflowing_def overflow_small)
  then show ?thesis by simp
qed

text \<open>
  Claim C10, amended: every element that the loop body writes is NaN or at most
  \<open>max(Vth, Vreset)\<close>: for every trace the cell returns and every index \<open>k\<close> with
  \<open>2 \<le> k \<le> N - 1\<close>, \<open>trace[k]\<close> is NaN or \<open>trace[k] \<le> max(Vth, Vreset)\<close>. The
  proof rests on the comparison alone, not on how the candidate was computed.
\<close>

theorem written_elements_bounded_unless_nan:
  assumes "simulate_d cfg = Inr V" and "2 \<le> k" and "int k \<le> N cfg - 1"
  shows "V ! k = NaN \<or> dle (V ! k) (dmax (overflow (Vth cfg)) (overflow (Vreset cfg)))"
proof -
  from assms(1) obtain W where m: "march_d cfg (range1 (N cfg - 1)) W = Inr V"
    by (auto simp: simulate_d_def split: sum.splits)
  from assms(2,3) have "k \<in> Suc ` set (range1 (N cfg - 1))"
    by (cases k) (auto simp: range1_def)
  with march_d_written[OF m] obtain v where "V ! k = stored_d cfg v" by blast
  then show ?thesis using stored_d_bounded[of cfg v] by simp
qed

text \<open>
  On \<open>boundary\<close> index 3 holds \<open>Vreset = - 1\<close>, below the threshold \<open>1/2\<close>.
\<close>

theorem written_elements_bounded_unless_nan_witness:
  "simulate_d boundary = Inr [Finite (1/4), Finite 0, Finite (1/2), Finite (- 1)]
     \<and> (2::nat) \<le> 3 \<and> int 3 \<le> N boundary - 1
     \<and> dle (Finite (- 1)) (dmax (overflow (Vth boundary)) (overflow (Vreset boundary)))"
proof -
  have e: "simulate_d boundary = Inr [Finite (1/4), Finite 0, Finite (1/2), Finite (- 1)]"
    by (simp add: simulate_d_def zeros_d_def setitem_d_def range1_def update_d_eq stored_d_def
        boundary_def overflow_small Let_def numeral_3_eq_3 numeral_2_eq_2 upt_conv_Cons
        eval_nat_numeral)
  have h: "(2::nat) \<le> 3" "int 3 \<le> N boundary - 1" by (simp_all add: boundary_def)
  from written_elements_bounded_unless_nan[OF e h] e h show ?thesis by simp
qed

end
